theory Spec2Isabelle
  imports Main
begin

section \<open>File-backed catalogs: \<open>nbodykit/source/catalog/file.py\<close>\<close>

text \<open>
  The class \<open>FileCatalogBase\<close> shards the rows of a stack of files over the processes of
  an MPI communicator. Python integers are unbounded, so they are \<^typ>\<open>int\<close> here, and
  Python's \<open>//\<close> is floor division, which is \<open>div\<close> on \<^typ>\<open>int\<close>. The row count of
  the stack is taken to be such an integer. Division by \<open>comm.size = 0\<close> would raise in
  Python; a communicator always has at least one process, and the theorems assume it. The
  element type of a column is left open (\<open>'a\<close>): the class never looks inside a row.
\<close>

subsection \<open>Errors\<close>

text \<open>
  The error kinds of the specification (section 7). \<open>AttributeProbeError\<close> stands for the
  \<open>AttributeError\<close> class and \<open>MissingColumnError\<close> for the error of a read of an
  absent column.
\<close>

datatype error =
    MissingColumnError
  | ProtectedColumnError
  | InvalidSelectorError
  | IncompatibleValueError
  | ConfigurationError
  | AttributeProbeError

subsection \<open>The collaborators: communicator and file stack\<close>

text \<open>
  \<open>self.comm\<close> has a \<open>rank\<close> and a \<open>size\<close>; an MPI communicator has at least one
  process and \<open>0 \<le> rank < size\<close>. \<open>self._source\<close> is the \<open>FileStack\<close>: it has a total
  row count \<open>size\<close>, the column names \<open>dtype.names\<close> and, for each name, the whole column
  \<open>get_dask(col)\<close>. The file readers themselves are not part of this class; the stack is a
  value the catalog holds.
\<close>

record MPIComm =
  comm_rank :: int
  comm_size :: int

record 'a FileStack =
  stack_size :: int
  stack_columns :: "(string \<times> 'a list) list"

definition dtype_names :: "'a FileStack \<Rightarrow> string list" where
  "dtype_names s = map fst (stack_columns s)"

definition get_dask :: "'a FileStack \<Rightarrow> string \<Rightarrow> 'a list" where
  "get_dask s col = (case map_of (stack_columns s) col of Some d \<Rightarrow> d | None \<Rightarrow> [])"

subsection \<open>Python slicing\<close>

text \<open>
  \<open>a[start:end]\<close> on a sequence of length \<open>L\<close>: a negative bound counts from the end, and
  both bounds are clamped to \<open>0..L\<close>; an empty range gives the empty sequence.
\<close>

definition slice_bound :: "int \<Rightarrow> int \<Rightarrow> int" where
  "slice_bound L i = (if i < 0 then max 0 (i + L) else min i L)"

definition py_slice :: "'a list \<Rightarrow> int \<Rightarrow> int \<Rightarrow> 'a list" where
  "py_slice xs start end =
     (let L = int (length xs); s = slice_bound L start; e = slice_bound L end
      in take (nat (e - s)) (drop (nat s) xs))"

subsection \<open>The catalog\<close>

text \<open>
  The fields of a \<open>FileCatalogBase\<close> that \<open>size\<close>, \<open>hardcolumns\<close> and \<open>get_hardcolumn\<close>
  read: the communicator, the file stack, and what the base class \<open>CatalogSource\<close>
  contributes. The base class is not among the sources; \<open>defaults\<close> is the value of
  \<open>CatalogSource.hardcolumns\<close> (the columns the base class itself provides), each with the
  local array the base class builds for it, and \<open>virtualcolumns\<close> are the columns that
  were assigned to the catalog, each with its local array.
\<close>

record 'a FileCatalogBase =
  comm :: MPIComm
  source :: "'a FileStack"
  defaults :: "(string \<times> 'a list) list"
  virtualcolumns :: "(string \<times> 'a list) list"

text \<open>
  Modelled from the spec: \<open>CatalogSource.get_hardcolumn\<close>, the method of the absent base
  class. Section 4.3: it consults only the hard or procedural backing and fails with an
  \<open>AttributeError\<close>-class error when the name is not a hard column.
\<close>

definition CatalogSource_get_hardcolumn :: "'a FileCatalogBase \<Rightarrow> string \<Rightarrow> error + 'a list" where
  "CatalogSource_get_hardcolumn self col =
     (case map_of (defaults self) col of
        Some d \<Rightarrow> Inr d
      | None \<Rightarrow> Inl AttributeProbeError)"

text \<open>The property \<open>size\<close> (lines 73-80): the local size of the catalog.\<close>

definition size_catalog :: "'a FileCatalogBase \<Rightarrow> int" where
  "size_catalog self =
     (let start = comm_rank (comm self) * stack_size (source self) div comm_size (comm self);
          end = (comm_rank (comm self) + 1) * stack_size (source self) div comm_size (comm self)
      in end - start)"

text \<open>The property \<open>hardcolumns\<close> (lines 82-88).\<close>

definition hardcolumns :: "'a FileCatalogBase \<Rightarrow> string list" where
  "hardcolumns self = dtype_names (source self) @ map fst (defaults self)"

text \<open>The method \<open>get_hardcolumn\<close> (lines 90-101).\<close>

definition get_hardcolumn :: "'a FileCatalogBase \<Rightarrow> string \<Rightarrow> error + 'a list" where
  "get_hardcolumn self col =
     (if col \<in> set (dtype_names (source self)) then
        (let start = comm_rank (comm self) * stack_size (source self) div comm_size (comm self);
             end = (comm_rank (comm self) + 1) * stack_size (source self) div comm_size (comm self)
         in Inr (py_slice (get_dask (source self) col) start end))
      else CatalogSource_get_hardcolumn self col)"

text \<open>
  The same catalog as process \<open>r\<close> of the communicator sees it: the file stack is
  broadcast from rank 0, so only the rank differs between processes.
\<close>

definition on_rank :: "'a FileCatalogBase \<Rightarrow> int \<Rightarrow> 'a FileCatalogBase" where
  "on_rank self r = self\<lparr>comm := (comm self)\<lparr>comm_rank := r\<rparr>\<rparr>"

subsection \<open>The partition rule in the words of the specification\<close>

text \<open>
  Section 4.4: \<open>partition(global_size, rank, num_ranks)\<close> gives \<open>(start, stop)\<close> by the
  floor-division boundary rule.
\<close>

definition partition_range :: "int \<Rightarrow> int \<Rightarrow> int \<Rightarrow> int \<times> int" where
  "partition_range global_size rank num_ranks =
     (rank * global_size div num_ranks, (rank + 1) * global_size div num_ranks)"

subsection \<open>The general column read\<close>

text \<open>
  Modelled from the spec: \<open>CatalogSource.get\<close>, the general column read
  \<open>catalog[name]\<close> of the absent base class. Section 4.3: it fails with
  \<open>MissingColumnError\<close> if the name is not in \<open>hardcolumns \<union> virtualcolumns\<close> and gives
  the column otherwise; an assigned column shadows a hard one of the same name.
\<close>

definition CatalogSource_get :: "'a FileCatalogBase \<Rightarrow> string \<Rightarrow> error + 'a list" where
  "CatalogSource_get self name =
     (case map_of (virtualcolumns self) name of
        Some d \<Rightarrow> Inr d
      | None \<Rightarrow>
          if name \<in> set (hardcolumns self) then get_hardcolumn self name
          else Inl MissingColumnError)"

subsection \<open>Gathering local arrays in rank order\<close>

text \<open>
  \<open>numpy.concatenate(comm.allgather(data), axis=0)\<close>, the helper \<open>allconcat\<close> of
  \<open>test_save\<close>: the local arrays of all processes, joined in rank order. A process whose
  local computation raised has no array to give, and the error is what the caller sees.
\<close>

fun allconcat :: "(error + 'a list) list \<Rightarrow> error + 'a list" where
  "allconcat [] = Inr []"
| "allconcat (x # xs) =
     (case x of
        Inl e \<Rightarrow> Inl e
      | Inr d \<Rightarrow> (case allconcat xs of Inl e \<Rightarrow> Inl e | Inr ds \<Rightarrow> Inr (d @ ds)))"

text \<open>The boundary before rank \<open>k\<close>, as a list position.\<close>

definition bnd :: "int \<Rightarrow> int \<Rightarrow> nat \<Rightarrow> nat" where
  "bnd N P k = nat (int k * N div P)"

text \<open>An example catalog: ten rows of one column, on four processes.\<close>

definition example_catalog :: "int FileCatalogBase" where
  "example_catalog =
     \<lparr>comm = \<lparr>comm_rank = 0, comm_size = 4\<rparr>,
      source = \<lparr>stack_size = 10,
                stack_columns = [(''Position'', [10, 11, 12, 13, 14, 15, 16, 17, 18, 19])]\<rparr>,
      defaults = [(''Weight'', [1, 1])],
      virtualcolumns = [(''TEST'', [7, 7])]\<rparr>"

section \<open>Floor-division boundaries\<close>

lemma carry_01:
  fixes m b P :: int
  assumes "0 \<le> m" "m < P" "0 \<le> b" "b < P"
  shows "(m + b) div P = 0 \<or> (m + b) div P = 1"
proof (cases "m + b < P")
  case True
  then have "(m + b) div P = 0" using assms by (intro div_pos_pos_trivial) auto
  then show ?thesis ..
next
  case False
  have "0 \<le> m + b - P" "m + b - P < P" using False assms by auto
  then have z: "(m + b - P) div P = 0" by (rule div_pos_pos_trivial)
  have "m + b = (m + b - P) + 1 * P" by simp
  then have "(m + b) div P = ((m + b - P) + 1 * P) div P" by simp
  also have "\<dots> = (m + b - P) div P + 1"
    using assms by (subst div_mult_self1) auto
  finally show ?thesis using z by simp
qed

lemma step_bounds:
  fixes N P r :: int
  assumes "0 \<le> N" "0 < P"
  shows "(r + 1) * N div P - r * N div P = N div P
       \<or> (r + 1) * N div P - r * N div P = N div P + 1"
proof -
  have e: "(r + 1) * N = r * N + N" by (simp add: algebra_simps)
  have d: "(r * N + N) div P = r * N div P + N div P + (r * N mod P + N mod P) div P"
    by (rule div_add1_eq)
  have "(r * N mod P + N mod P) div P = 0 \<or> (r * N mod P + N mod P) div P = 1"
    using assms by (intro carry_01) simp_all
  then show ?thesis using d e by auto
qed

lemma start_mono:
  fixes N P r :: int
  assumes "0 \<le> N" "0 < P"
  shows "r * N div P \<le> (r + 1) * N div P"
proof -
  have "0 \<le> N div P" using assms by (simp add: pos_imp_zdiv_nonneg_iff)
  then show ?thesis using step_bounds[OF assms, of r] by linarith
qed

lemma start_nonneg:
  fixes N P r :: int
  assumes "0 \<le> N" "0 < P" "0 \<le> r"
  shows "0 \<le> r * N div P"
  using assms by (simp add: pos_imp_zdiv_nonneg_iff)

lemma stop_le_total:
  fixes N P r :: int
  assumes "0 \<le> N" "0 < P" "r < P"
  shows "(r + 1) * N div P \<le> N"
proof -
  have "(r + 1) * N \<le> P * N" using assms by (intro mult_right_mono) auto
  then have "(r + 1) * N div P \<le> P * N div P" using assms by (intro zdiv_mono1) auto
  then show ?thesis using assms by simp
qed

lemma start_stop_bounds:
  fixes N P r :: int
  assumes "0 \<le> N" "0 < P" "0 \<le> r" "r < P"
  shows "0 \<le> fst (partition_range N r P) \<and>
         fst (partition_range N r P) \<le> snd (partition_range N r P) \<and>
         snd (partition_range N r P) \<le> N"
  using start_nonneg[OF assms(1,2,3)] start_mono[OF assms(1,2), of r]
    stop_le_total[OF assms(1,2,4)]
  by (simp add: partition_range_def)

lemma range_ends:
  fixes N P :: int
  assumes "0 < P"
  shows "fst (partition_range N 0 P) = 0 \<and> snd (partition_range N (P - 1) P) = N"
  using assms by (simp add: partition_range_def)

lemma range_contiguous: "snd (partition_range N r P) = fst (partition_range N (r + 1) P)"
  by (simp add: partition_range_def)

lemma range_balance:
  fixes N P r r' :: int
  assumes "0 \<le> N" "0 < P"
  shows "\<bar>(snd (partition_range N r P) - fst (partition_range N r P))
          - (snd (partition_range N r' P) - fst (partition_range N r' P))\<bar> \<le> 1"
  using step_bounds[OF assms, of r] step_bounds[OF assms, of r']
  by (auto simp: partition_range_def)

lemma bnd_step:
  assumes "0 \<le> N" "0 < P"
  shows "bnd N P k \<le> bnd N P (Suc k)"
proof -
  have "int k * N div P \<le> (int k + 1) * N div P" using assms by (rule start_mono)
  then show ?thesis by (simp add: bnd_def add.commute)
qed

lemma bnd_ends:
  assumes "0 \<le> N" "0 < P"
  shows "bnd N P 0 = 0" "bnd N P (nat P) = nat N"
  using assms by (simp_all add: bnd_def)

section \<open>Tiling a list by consecutive pieces\<close>

lemma mono_from_0:
  fixes b :: "nat \<Rightarrow> nat"
  assumes "\<And>k. k < n \<Longrightarrow> b k \<le> b (Suc k)"
  shows "b 0 \<le> b n"
  using assms
proof (induction n)
  case 0
  then show ?case by simp
next
  case (Suc m)
  then have "b 0 \<le> b m" "b m \<le> b (Suc m)" by auto
  then show ?case by simp
qed

lemma tile_upt:
  fixes b :: "nat \<Rightarrow> nat"
  assumes "\<And>k. k < n \<Longrightarrow> b k \<le> b (Suc k)"
  shows "concat (map (\<lambda>k. [b k..<b (Suc k)]) [0..<n]) = [b 0..<b n]"
  using assms
proof (induction n)
  case 0
  then show ?case by simp
next
  case (Suc n)
  have le: "b 0 \<le> b n" using Suc.prems by (intro mono_from_0) simp
  have "b n \<le> b (Suc n)" using Suc.prems by simp
  then have "[b 0..<b n] @ [b n..<b (Suc n)] = [b 0..<b (Suc n)]"
    using le by (metis le_Suc_ex upt_add_eq_append)
  then show ?case using Suc by simp
qed

lemma slice_append:
  assumes "a \<le> b" "b \<le> c"
  shows "take (b - a) (drop a xs) @ take (c - b) (drop b xs) = take (c - a) (drop a xs)"
proof -
  have "take ((b - a) + (c - b)) (drop a xs) =
        take (b - a) (drop a xs) @ take (c - b) (drop (b - a) (drop a xs))"
    by (rule take_add)
  moreover have "(b - a) + (c - b) = c - a" using assms by simp
  moreover have "drop (b - a) (drop a xs) = drop b xs" using assms by simp
  ultimately show ?thesis by simp
qed

lemma tile_slices:
  fixes b :: "nat \<Rightarrow> nat"
  assumes "\<And>k. k < n \<Longrightarrow> b k \<le> b (Suc k)"
  shows "concat (map (\<lambda>k. take (b (Suc k) - b k) (drop (b k) xs)) [0..<n]) =
         take (b n - b 0) (drop (b 0) xs)"
  using assms
proof (induction n)
  case 0
  then show ?case by simp
next
  case (Suc n)
  have le: "b 0 \<le> b n" using Suc.prems by (intro mono_from_0) simp
  have st: "b n \<le> b (Suc n)" using Suc.prems by simp
  have "concat (map (\<lambda>k. take (b (Suc k) - b k) (drop (b k) xs)) [0..<Suc n]) =
        take (b n - b 0) (drop (b 0) xs) @ take (b (Suc n) - b n) (drop (b n) xs)"
    using Suc by simp
  also have "\<dots> = take (b (Suc n) - b 0) (drop (b 0) xs)"
    using le st by (rule slice_append)
  finally show ?case .
qed

lemma range_tiles:
  fixes N P :: int
  assumes "0 \<le> N" "0 < P"
  shows "concat (map (\<lambda>k. [nat (fst (partition_range N (int k) P))..<
                            nat (snd (partition_range N (int k) P))]) [0..<nat P]) = [0..<nat N]"
proof -
  have "concat (map (\<lambda>k. [bnd N P k..<bnd N P (Suc k)]) [0..<nat P]) =
        [bnd N P 0..<bnd N P (nat P)]"
    using bnd_step[OF assms] by (intro tile_upt) simp
  moreover have "\<And>k. nat (fst (partition_range N (int k) P)) = bnd N P k"
    by (simp add: partition_range_def bnd_def)
  moreover have "\<And>k. nat (snd (partition_range N (int k) P)) = bnd N P (Suc k)"
    by (simp add: partition_range_def bnd_def add.commute)
  ultimately show ?thesis using bnd_ends[OF assms] by simp
qed

section \<open>The local size and the local slice of a hard column\<close>

lemma allconcat_Inr: "allconcat (map (\<lambda>k. Inr (f k)) ks) = Inr (concat (map f ks))"
  by (induction ks) simp_all

lemma size_on_rank:
  "size_catalog (on_rank self r) =
     snd (partition_range (stack_size (source self)) r (comm_size (comm self)))
       - fst (partition_range (stack_size (source self)) r (comm_size (comm self)))"
  by (simp add: size_catalog_def on_rank_def partition_range_def)

lemma py_slice_inside:
  assumes "0 \<le> s" "s \<le> e" "e \<le> int (length xs)"
  shows "py_slice xs s e = take (nat e - nat s) (drop (nat s) xs)"
proof -
  have "slice_bound (int (length xs)) s = s" "slice_bound (int (length xs)) e = e"
    using assms by (simp_all add: slice_bound_def)
  moreover have "nat (e - s) = nat e - nat s" using assms by simp
  ultimately show ?thesis by (simp add: py_slice_def Let_def)
qed

lemma get_hardcolumn_slice:
  assumes "col \<in> set (dtype_names (source self))"
  shows "get_hardcolumn (on_rank self r) col =
     Inr (py_slice (get_dask (source self) col)
            (fst (partition_range (stack_size (source self)) r (comm_size (comm self))))
            (snd (partition_range (stack_size (source self)) r (comm_size (comm self)))))"
  using assms by (simp add: get_hardcolumn_def on_rank_def Let_def partition_range_def)

lemma get_hardcolumn_local:
  assumes N: "0 \<le> stack_size (source self)" and P: "0 < comm_size (comm self)"
    and col: "col \<in> set (dtype_names (source self))"
    and len: "int (length (get_dask (source self) col)) = stack_size (source self)"
    and r: "0 \<le> r" "r < comm_size (comm self)"
  shows "get_hardcolumn (on_rank self r) col =
     Inr (take (nat ((r + 1) * stack_size (source self) div comm_size (comm self))
                 - nat (r * stack_size (source self) div comm_size (comm self)))
            (drop (nat (r * stack_size (source self) div comm_size (comm self)))
               (get_dask (source self) col)))"
proof -
  let ?N = "stack_size (source self)" and ?P = "comm_size (comm self)"
  have 1: "0 \<le> r * ?N div ?P" using N P r(1) by (rule start_nonneg)
  have 2: "r * ?N div ?P \<le> (r + 1) * ?N div ?P" using N P by (rule start_mono)
  have 3: "(r + 1) * ?N div ?P \<le> int (length (get_dask (source self) col))"
    using stop_le_total[OF N P r(2)] len by simp
  have "get_hardcolumn (on_rank self r) col =
        Inr (py_slice (get_dask (source self) col) (r * ?N div ?P) ((r + 1) * ?N div ?P))"
    using col by (simp add: get_hardcolumn_def on_rank_def Let_def)
  then show ?thesis using py_slice_inside[OF 1 2 3] by simp
qed

lemma get_hardcolumn_length:
  assumes N: "0 \<le> stack_size (source self)" and P: "0 < comm_size (comm self)"
    and col: "col \<in> set (dtype_names (source self))"
    and len: "int (length (get_dask (source self) col)) = stack_size (source self)"
    and r: "0 \<le> r" "r < comm_size (comm self)"
  shows "\<exists>d. get_hardcolumn (on_rank self r) col = Inr d
           \<and> int (length d) = size_catalog (on_rank self r)"
proof -
  let ?N = "stack_size (source self)" and ?P = "comm_size (comm self)"
  have 1: "0 \<le> r * ?N div ?P" using N P r(1) by (rule start_nonneg)
  have 2: "r * ?N div ?P \<le> (r + 1) * ?N div ?P" using N P by (rule start_mono)
  have 3: "(r + 1) * ?N div ?P \<le> ?N" using N P r(2) by (rule stop_le_total)
  have "int (length (take (nat ((r + 1) * ?N div ?P) - nat (r * ?N div ?P))
            (drop (nat (r * ?N div ?P)) (get_dask (source self) col)))) =
        (r + 1) * ?N div ?P - r * ?N div ?P"
    using 1 2 3 len by simp
  then show ?thesis
    using get_hardcolumn_local[OF assms] by (simp add: size_catalog_def on_rank_def)
qed

lemma gather_hardcolumn:
  assumes N: "0 \<le> stack_size (source self)" and P: "0 < comm_size (comm self)"
    and col: "col \<in> set (dtype_names (source self))"
    and len: "int (length (get_dask (source self) col)) = stack_size (source self)"
  shows "allconcat (map (\<lambda>k. get_hardcolumn (on_rank self (int k)) col)
            [0..<nat (comm_size (comm self))]) = Inr (get_dask (source self) col)"
proof -
  let ?N = "stack_size (source self)" and ?P = "comm_size (comm self)"
  let ?d = "get_dask (source self) col"
  have len': "length ?d = nat ?N" using len by simp
  have loc: "map (\<lambda>k. get_hardcolumn (on_rank self (int k)) col) [0..<nat ?P] =
      map (\<lambda>k. Inr (take (bnd ?N ?P (Suc k) - bnd ?N ?P k) (drop (bnd ?N ?P k) ?d)))
        [0..<nat ?P]"
    using get_hardcolumn_local[OF N P col len]
    by (intro map_cong) (simp_all add: bnd_def add.commute)
  have "concat (map (\<lambda>k. take (bnd ?N ?P (Suc k) - bnd ?N ?P k) (drop (bnd ?N ?P k) ?d))
          [0..<nat ?P]) = take (bnd ?N ?P (nat ?P) - bnd ?N ?P 0) (drop (bnd ?N ?P 0) ?d)"
    using bnd_step[OF N P] by (intro tile_slices) simp
  also have "\<dots> = ?d" using bnd_ends[OF N P] len' by simp
  finally have cat:
    "concat (map (\<lambda>k. take (bnd ?N ?P (Suc k) - bnd ?N ?P k) (drop (bnd ?N ?P k) ?d))
       [0..<nat ?P]) = ?d" .
  show ?thesis unfolding loc allconcat_Inr cat ..
qed

text \<open>The example: four processes share ten rows as 2, 3, 2, 3.\<close>

lemma example_sizes:
  "map (\<lambda>r. size_catalog (on_rank example_catalog r)) [0, 1, 2, 3] = [2, 3, 2, 3]"
  by (simp add: size_catalog_def on_rank_def example_catalog_def)

lemma example_local:
  "map (\<lambda>r. get_hardcolumn (on_rank example_catalog r) ''Position'') [0, 1, 2, 3] =
     [Inr [10, 11], Inr [12, 13, 14], Inr [15, 16], Inr [17, 18, 19]]"
  by (simp add: get_hardcolumn_def on_rank_def example_catalog_def dtype_names_def get_dask_def
      py_slice_def slice_bound_def Let_def)

section \<open>Partition coverage and balance\<close>

text \<open>
  Claim C4. For every non-negative global size \<open>N\<close> and every positive number of
  processes \<open>P\<close>, the ranges \<open>start = rank * N // P\<close>, \<open>stop = (rank + 1) * N // P\<close>
  start at 0, end at \<open>N\<close>, are contiguous in rank order (each stop is the next start) and
  lie in \<open>0..N\<close>; their row indices, joined in rank order, are exactly \<open>0, ..., N - 1\<close>,
  each once; and the lengths of any two ranges differ by at most 1. This is what the code
  computes: the property \<open>size\<close> of the catalog on rank \<open>r\<close> is \<open>stop - start\<close>,
  \<open>get_hardcolumn\<close> on rank \<open>r\<close> returns the slice \<open>[start:stop]\<close> of the whole column,
  of length \<open>size\<close>, and the local slices of all ranks, gathered in rank order, are the
  whole column. The ranges are a function of \<open>(N, rank, P)\<close> alone, so every process
  computes the same ones without communication.
\<close>

theorem partition_coverage_balance:
  assumes N: "0 \<le> N" and P: "0 < P"
    and self: "stack_size (source self) = N" "comm_size (comm self) = P"
  shows
    "(fst (partition_range N 0 P) = 0 \<and> snd (partition_range N (P - 1) P) = N)
   \<and> (\<forall>r. snd (partition_range N r P) = fst (partition_range N (r + 1) P))
   \<and> (\<forall>r. 0 \<le> r \<and> r < P \<longrightarrow>
          0 \<le> fst (partition_range N r P)
        \<and> fst (partition_range N r P) \<le> snd (partition_range N r P)
        \<and> snd (partition_range N r P) \<le> N)
   \<and> concat (map (\<lambda>k. [nat (fst (partition_range N (int k) P))..<
                          nat (snd (partition_range N (int k) P))]) [0..<nat P]) = [0..<nat N]
   \<and> (\<forall>r. size_catalog (on_rank self r)
            = snd (partition_range N r P) - fst (partition_range N r P))
   \<and> (\<forall>r r'. \<bar>size_catalog (on_rank self r) - size_catalog (on_rank self r')\<bar> \<le> 1)
   \<and> (\<forall>col \<in> set (dtype_names (source self)).
          int (length (get_dask (source self) col)) = N \<longrightarrow>
            (\<forall>r. get_hardcolumn (on_rank self r) col =
                   Inr (py_slice (get_dask (source self) col)
                          (fst (partition_range N r P)) (snd (partition_range N r P))))
          \<and> (\<forall>r. 0 \<le> r \<and> r < P \<longrightarrow>
                 (\<exists>d. get_hardcolumn (on_rank self r) col = Inr d
                    \<and> int (length d) = size_catalog (on_rank self r)))
          \<and> allconcat (map (\<lambda>k. get_hardcolumn (on_rank self (int k)) col) [0..<nat P])
              = Inr (get_dask (source self) col))"
proof (intro conjI allI impI ballI)
  show "fst (partition_range N 0 P) = 0" using range_ends[OF P] by simp
  show "snd (partition_range N (P - 1) P) = N" using range_ends[OF P] by simp
  show "snd (partition_range N r P) = fst (partition_range N (r + 1) P)" for r
    by (rule range_contiguous)
  show "concat (map (\<lambda>k. [nat (fst (partition_range N (int k) P))..<
                          nat (snd (partition_range N (int k) P))]) [0..<nat P]) = [0..<nat N]"
    using N P by (rule range_tiles)
  show "size_catalog (on_rank self r)
            = snd (partition_range N r P) - fst (partition_range N r P)" for r
    using self by (simp add: size_on_rank)
  show "\<bar>size_catalog (on_rank self r) - size_catalog (on_rank self r')\<bar> \<le> 1" for r r'
    using range_balance[OF N P, of r r'] self by (simp add: size_on_rank)
next
  fix r assume "0 \<le> r \<and> r < P"
  then have b: "0 \<le> fst (partition_range N r P) \<and>
         fst (partition_range N r P) \<le> snd (partition_range N r P) \<and>
         snd (partition_range N r P) \<le> N"
    using N P by (intro start_stop_bounds) auto
  show "0 \<le> fst (partition_range N r P)" using b by simp
  show "fst (partition_range N r P) \<le> snd (partition_range N r P)" using b by simp
  show "snd (partition_range N r P) \<le> N" using b by simp
next
  fix col assume col: "col \<in> set (dtype_names (source self))"
    and len: "int (length (get_dask (source self) col)) = N"
  show "get_hardcolumn (on_rank self r) col =
                   Inr (py_slice (get_dask (source self) col)
                          (fst (partition_range N r P)) (snd (partition_range N r P)))" for r
    using get_hardcolumn_slice[OF col, of r] self by simp
  show "allconcat (map (\<lambda>k. get_hardcolumn (on_rank self (int k)) col) [0..<nat P])
              = Inr (get_dask (source self) col)"
    using gather_hardcolumn[of self col] N P col len self by simp
  show "\<exists>d. get_hardcolumn (on_rank self r) col = Inr d
                    \<and> int (length d) = size_catalog (on_rank self r)"
    if "0 \<le> r \<and> r < P" for r
    using get_hardcolumn_length[of self col r] N P col len self that by simp
qed

theorem partition_coverage_balance_witness:
  "(0::int) \<le> 10 \<and> (0::int) < 4
   \<and> stack_size (source example_catalog) = 10 \<and> comm_size (comm example_catalog) = 4
   \<and> ''Position'' \<in> set (dtype_names (source example_catalog))
   \<and> int (length (get_dask (source example_catalog) ''Position'')) = 10
   \<and> concat (map (\<lambda>k. [nat (fst (partition_range 10 (int k) 4))..<
                          nat (snd (partition_range 10 (int k) 4))]) [0..<nat 4]) = [0..<nat 10]
   \<and> \<bar>size_catalog (on_rank example_catalog 0) - size_catalog (on_rank example_catalog 1)\<bar> \<le> 1
   \<and> allconcat (map (\<lambda>k. get_hardcolumn (on_rank example_catalog (int k)) ''Position'')
         [0..<nat 4]) = Inr (get_dask (source example_catalog) ''Position'')"
proof -
  have h1: "(0::int) \<le> 10" and h2: "(0::int) < 4" by simp_all
  have h3: "stack_size (source example_catalog) = 10"
    and h4: "comm_size (comm example_catalog) = 4"
    by (simp_all add: example_catalog_def)
  have c: "''Position'' \<in> set (dtype_names (source example_catalog))"
    by (simp add: example_catalog_def dtype_names_def)
  have l: "int (length (get_dask (source example_catalog) ''Position'')) = 10"
    by (simp add: example_catalog_def get_dask_def)
  note t = partition_coverage_balance[OF h1 h2 h3 h4]
  have tiles: "concat (map (\<lambda>k. [nat (fst (partition_range 10 (int k) 4))..<
                          nat (snd (partition_range 10 (int k) 4))]) [0..<nat 4]) = [0..<nat 10]"
    using t by blast
  have bal: "\<bar>size_catalog (on_rank example_catalog 0)
              - size_catalog (on_rank example_catalog 1)\<bar> \<le> 1"
    using t by blast
  have gat: "allconcat (map (\<lambda>k. get_hardcolumn (on_rank example_catalog (int k)) ''Position'')
         [0..<nat 4]) = Inr (get_dask (source example_catalog) ''Position'')"
    using t c l by blast
  show ?thesis using h1 h2 h3 h4 c l tiles bal gat by blast
qed

section \<open>Probing for a hard column\<close>

lemma get_hardcolumn_results:
  "(\<exists>d. get_hardcolumn self col = Inr d) \<or> get_hardcolumn self col = Inl AttributeProbeError"
  by (simp add: get_hardcolumn_def CatalogSource_get_hardcolumn_def Let_def split: option.split)

lemma get_hardcolumn_known:
  assumes "col \<in> set (hardcolumns self)"
  shows "\<exists>d. get_hardcolumn self col = Inr d"
proof (cases "col \<in> set (dtype_names (source self))")
  case True
  then show ?thesis by (simp add: get_hardcolumn_def Let_def)
next
  case False
  then have "col \<in> fst ` set (defaults self)" using assms by (simp add: hardcolumns_def)
  then have "map_of (defaults self) col \<noteq> None" by (simp add: map_of_eq_None_iff)
  then show ?thesis using False
    by (auto simp: get_hardcolumn_def CatalogSource_get_hardcolumn_def)
qed

lemma get_hardcolumn_unknown:
  assumes "col \<notin> set (hardcolumns self)"
  shows "get_hardcolumn self col = Inl AttributeProbeError"
proof -
  have "col \<notin> set (dtype_names (source self))" "col \<notin> fst ` set (defaults self)"
    using assms by (simp_all add: hardcolumns_def)
  then have "map_of (defaults self) col = None" by (simp add: map_of_eq_None_iff)
  then show ?thesis using \<open>col \<notin> set (dtype_names (source self))\<close>
    by (simp add: get_hardcolumn_def CatalogSource_get_hardcolumn_def)
qed

text \<open>
  Claim C8. For every name that is not a hard column (neither a column of the file stack
  nor one the base class provides), \<open>get_hardcolumn\<close> fails with the
  \<open>AttributeError\<close>-class error, and for every hard column it succeeds. A general
  column read of a name that is in neither \<open>hardcolumns\<close> nor the assigned columns fails
  with \<open>MissingColumnError\<close>. The two kinds are distinct and never cross:
  \<open>get_hardcolumn\<close> never fails with \<open>MissingColumnError\<close>, and the general read never
  fails with the \<open>AttributeError\<close>-class error, so a caller can tell the two apart.
\<close>

theorem get_hardcolumn_probe_error:
  "(col \<notin> set (hardcolumns self) \<longrightarrow> get_hardcolumn self col = Inl AttributeProbeError)
   \<and> (col \<in> set (hardcolumns self) \<longrightarrow> (\<exists>d. get_hardcolumn self col = Inr d))
   \<and> (col \<notin> set (hardcolumns self) \<and> col \<notin> fst ` set (virtualcolumns self) \<longrightarrow>
        CatalogSource_get self col = Inl MissingColumnError)
   \<and> get_hardcolumn self col \<noteq> Inl MissingColumnError
   \<and> CatalogSource_get self col \<noteq> Inl AttributeProbeError
   \<and> AttributeProbeError \<noteq> MissingColumnError"
proof (intro conjI impI)
  show "get_hardcolumn self col = Inl AttributeProbeError" if "col \<notin> set (hardcolumns self)"
    using that by (rule get_hardcolumn_unknown)
  show "\<exists>d. get_hardcolumn self col = Inr d" if "col \<in> set (hardcolumns self)"
    using that by (rule get_hardcolumn_known)
  show "CatalogSource_get self col = Inl MissingColumnError"
    if "col \<notin> set (hardcolumns self) \<and> col \<notin> fst ` set (virtualcolumns self)"
  proof -
    have "map_of (virtualcolumns self) col = None" using that by (simp add: map_of_eq_None_iff)
    then show ?thesis using that by (simp add: CatalogSource_get_def)
  qed
  show "get_hardcolumn self col \<noteq> Inl MissingColumnError"
    using get_hardcolumn_results[of self col] by auto
  show "CatalogSource_get self col \<noteq> Inl AttributeProbeError"
  proof (cases "map_of (virtualcolumns self) col")
    case (Some d)
    then show ?thesis by (simp add: CatalogSource_get_def)
  next
    case None
    show ?thesis
    proof (cases "col \<in> set (hardcolumns self)")
      case True
      then obtain d where "get_hardcolumn self col = Inr d"
        using get_hardcolumn_known by blast
      then show ?thesis using None True by (simp add: CatalogSource_get_def)
    next
      case False
      then show ?thesis using None by (simp add: CatalogSource_get_def)
    qed
  qed
  show "AttributeProbeError \<noteq> MissingColumnError" by simp
qed

theorem get_hardcolumn_probe_error_witness:
  "''BAD_COLUMN'' \<notin> set (hardcolumns example_catalog)
   \<and> ''BAD_COLUMN'' \<notin> fst ` set (virtualcolumns example_catalog)
   \<and> get_hardcolumn example_catalog ''BAD_COLUMN'' = Inl AttributeProbeError
   \<and> CatalogSource_get example_catalog ''BAD_COLUMN'' = Inl MissingColumnError
   \<and> ''TEST'' \<notin> set (hardcolumns example_catalog)
   \<and> get_hardcolumn example_catalog ''TEST'' = Inl AttributeProbeError
   \<and> ''Weight'' \<in> set (hardcolumns example_catalog)
   \<and> (\<exists>d. get_hardcolumn example_catalog ''Weight'' = Inr d)"
proof -
  have a: "''BAD_COLUMN'' \<notin> set (hardcolumns example_catalog)"
    and b: "''BAD_COLUMN'' \<notin> fst ` set (virtualcolumns example_catalog)"
    and c: "''TEST'' \<notin> set (hardcolumns example_catalog)"
    and d: "''Weight'' \<in> set (hardcolumns example_catalog)"
    by (simp_all add: hardcolumns_def example_catalog_def dtype_names_def)
  show ?thesis
    using a b c d
      get_hardcolumn_probe_error[of "''BAD_COLUMN''" example_catalog]
      get_hardcolumn_probe_error[of "''TEST''" example_catalog]
      get_hardcolumn_probe_error[of "''Weight''" example_catalog]
    by blast
qed

end
